theory Spec2Isabelle
  imports Complex_Main "HOL-Library.Stream"
begin

section \<open>Numbers, points and recorded calls\<close>

text \<open>
  The Go code computes with \<^verbatim>\<open>float64\<close>; \<^verbatim>\<open>vg.Length\<close> and \<^verbatim>\<open>Angle\<close> are
  named \<^verbatim>\<open>float64\<close> types. They are embedded as \<^typ>\<open>real\<close>: rounding, infinities
  and NaN are not modelled, so a quotient by zero (which Go evaluates to an infinity or a
  NaN, and HOL to \<open>0\<close>) is kept out of every statement that depends on it.
\<close>

type_synonym vg_Length = real
type_synonym Angle = real

text \<open>\<^verbatim>\<open>rings.Point\<close>, the result of the polar-to-rectangular projection.\<close>

record Point =
  X :: real
  Y :: real

text \<open>\<^verbatim>\<open>bezier.Point\<close>, a control point of a curve.\<close>

record bezier_Point =
  X :: real
  Y :: real

text \<open>\<^verbatim>\<open>draw.Point\<close>, a position on the canvas.\<close>

record draw_Point =
  X :: vg_Length
  Y :: vg_Length

text \<open>
  \<^verbatim>\<open>color.Color\<close> is an interface of the standard library whose value may be
  \<^verbatim>\<open>nil\<close>; a colour is taken as its four channels, and a field of that type is an
  \<^typ>\<open>'a option\<close>.
\<close>

datatype color = RGBA nat nat nat nat

text \<open>
  \<^verbatim>\<open>draw.LineStyle\<close> and \<^verbatim>\<open>draw.TextStyle\<close> of the plotting library, with the
  fields the renderer reads (the font of a text style is carried as its name).
\<close>

record LineStyle =
  Color :: "color option"
  Width :: vg_Length
  Dashes :: "vg_Length list"
  DashOffs :: vg_Length

record TextStyle =
  Color :: "color option"
  Font :: string

text \<open>\<^verbatim>\<open>vg.Path\<close>: the components appended by \<^verbatim>\<open>Move\<close>, \<^verbatim>\<open>Line\<close> and \<^verbatim>\<open>Arc\<close>.\<close>

datatype PathComp =
  MoveComp vg_Length vg_Length
  | LineComp vg_Length vg_Length
  | ArcComp vg_Length vg_Length vg_Length real real

type_synonym Path = "PathComp list"

text \<open>
  The calls a function makes on its collaborators, in program order: the methods of
  \<^verbatim>\<open>draw.Canvas\<close> the renderer uses, and \<^verbatim>\<open>Rectangular(angle, radius)\<close>, the
  polar-to-rectangular projection. \<^verbatim>\<open>Rectangular\<close> is a function of the package whose
  body is not among the sources: the model takes it as a parameter and records the
  arguments of each call.
\<close>

datatype call =
  Rectangular_call Angle real
  | SetLineStyle LineStyle
  | Stroke Path
  | Push
  | Translate vg_Length vg_Length
  | Rotate real
  | FillText TextStyle vg_Length vg_Length real real string
  | Pop

text \<open>The radii of the projection calls of a trace, in order.\<close>

fun radii :: "call list \<Rightarrow> real list" where
  "radii [] = []"
| "radii (Rectangular_call a r # cs) = r # radii cs"
| "radii (c # cs) = radii cs"

section \<open>Perturbation distributions (bezier.go)\<close>

record LengthDist =
  Length :: vg_Length
  Min :: "real option"
  Max :: "real option"

text \<open>
  \<^verbatim>\<open>LengthDist.Perturb\<close>. The receiver is a pointer, and on a nil receiver the first
  field read panics; the argument here is a distribution, so that call is outside the
  model.
\<close>

definition LengthDist_Perturb :: "LengthDist \<Rightarrow> real \<Rightarrow> vg_Length" where
  "LengthDist_Perturb p f =
     (if LengthDist.Min p = None \<and> LengthDist.Max p = None then Length p
      else
        let min = (case LengthDist.Min p of None \<Rightarrow> 1 | Some m \<Rightarrow> m);
            max = (case LengthDist.Max p of None \<Rightarrow> 1 | Some m \<Rightarrow> m)
        in Length p * (min + (max - min) * f))"

record FactorDist =
  Factor :: real
  Min :: "real option"
  Max :: "real option"

text \<open>\<^verbatim>\<open>FactorDist.Perturb\<close>.\<close>

definition FactorDist_Perturb :: "FactorDist \<Rightarrow> real \<Rightarrow> real" where
  "FactorDist_Perturb p f =
     (if FactorDist.Min p = None \<and> FactorDist.Max p = None then Factor p
      else
        let min = (case FactorDist.Min p of None \<Rightarrow> 1 | Some m \<Rightarrow> m);
            max = (case FactorDist.Max p of None \<Rightarrow> 1 | Some m \<Rightarrow> m)
        in Factor p * (min + (max - min) * f))"

section \<open>Control points of a link (bezier.go)\<close>

record Bezier =
  Segments :: int
  Radius :: LengthDist
  Crest :: "FactorDist option"
  Purity :: "FactorDist option"

text \<open>
  \<^verbatim>\<open>rand.Float64()\<close> reads the process-wide random source: the source is an explicit
  stream of samples, and a call returns the next sample and the rest of the stream.
\<close>

definition rand_Float64 :: "real stream \<Rightarrow> real \<times> real stream" where
  "rand_Float64 rs = (shd rs, stl rs)"

text \<open>\<^verbatim>\<open>math.Hypot(p, q)\<close> of the standard library, on finite arguments.\<close>

definition Hypot :: "real \<Rightarrow> real \<Rightarrow> real" where
  "Hypot p q = sqrt (p * p + q * q)"

text \<open>
  Lines 86 to 90 of \<^verbatim>\<open>ControlPoints\<close>: the working radius distribution, a copy of
  \<^verbatim>\<open>b.Radius\<close> whose \<^verbatim>\<open>Length\<close> is adjusted when \<^verbatim>\<open>b.Purity\<close> is set, together
  with the random source after the sample drawn for the purity factor.
\<close>

definition working_radius ::
  "Bezier \<Rightarrow> Point \<Rightarrow> Point \<Rightarrow> real stream \<Rightarrow> LengthDist \<times> real stream" where
  "working_radius b p0 p1 rs =
     (let radius = Radius b in
      case Purity b of
        None \<Rightarrow> (radius, rs)
      | Some purity \<Rightarrow>
          let bisectRadius = Hypot ((Point.X p0 + Point.X p1) / 2) ((Point.Y p0 + Point.Y p1) / 2);
              (f, rs') = rand_Float64 rs
          in (radius\<lparr>Length := Length radius
                 + (FactorDist_Perturb purity f - 1) * (Length radius - bisectRadius)\<rparr>, rs'))"

text \<open>Lines 92 to 97 of \<^verbatim>\<open>ControlPoints\<close>: the bisecting angle of the two end angles.\<close>

definition bisect :: "Angle \<times> Angle \<Rightarrow> Angle" where
  "bisect a =
     (if \<bar>snd a - fst a\<bar> > pi then (fst a + snd a + 2 * pi) / 2 - 2 * pi
      else (snd a + fst a) / 2)"

text \<open>
  \<^verbatim>\<open>Bezier.ControlPoints\<close>. The arrays \<^verbatim>\<open>[2]Angle\<close> and \<^verbatim>\<open>[2]vg.Length\<close> are
  pairs. The result is the returned slice, the projection calls made (in order) and the
  random source left. With a crest the slice literal has five elements, those at the
  indices 1 and 3 being zero points until the loop over \<^verbatim>\<open>rad\<close> stores the two
  shoulders.
\<close>

definition ControlPoints ::
  "(Angle \<Rightarrow> real \<Rightarrow> Point) \<Rightarrow> Bezier \<Rightarrow> Angle \<times> Angle \<Rightarrow> vg_Length \<times> vg_Length \<Rightarrow> real stream
     \<Rightarrow> bezier_Point list \<times> call list \<times> real stream" where
  "ControlPoints Rectangular b a rad rs =
     (let p0 = Rectangular (fst a) (fst rad);
          p1 = Rectangular (snd a) (snd rad);
          (radius, rs1) = working_radius b p0 p1 rs;
          (f, rs2) = rand_Float64 rs1;
          mr = LengthDist_Perturb radius f;
          mp = Rectangular (bisect a) mr;
          mid = \<lparr>bezier_Point.X = Point.X mp, Y = Point.Y mp\<rparr>;
          calls = [Rectangular_call (fst a) (fst rad), Rectangular_call (snd a) (snd rad),
                   Rectangular_call (bisect a) mr]
      in case Crest b of
           Some crest \<Rightarrow>
             let points = [\<lparr>bezier_Point.X = Point.X p0, Y = Point.Y p0\<rparr>,
                           \<lparr>bezier_Point.X = 0, Y = 0\<rparr>,
                           mid,
                           \<lparr>bezier_Point.X = 0, Y = 0\<rparr>,
                           \<lparr>bezier_Point.X = Point.X p1, Y = Point.Y p1\<rparr>];
                 (f', rs3) = rand_Float64 rs2;
                 c = FactorDist_Perturb crest f';
                 r0 = fst rad - (fst rad - Length radius) * c;
                 cp = Rectangular (fst a) r0;
                 points = points[2 * 0 + 1 := \<lparr>bezier_Point.X = Point.X cp, Y = Point.Y cp\<rparr>];
                 r1 = snd rad - (snd rad - Length radius) * c;
                 cp = Rectangular (snd a) r1;
                 points = points[2 * 1 + 1 := \<lparr>bezier_Point.X = Point.X cp, Y = Point.Y cp\<rparr>]
             in (points,
                 calls @ [Rectangular_call (fst a) r0, Rectangular_call (snd a) r1],
                 rs3)
         | None \<Rightarrow>
             ([\<lparr>bezier_Point.X = Point.X p0, Y = Point.Y p0\<rparr>,
               mid,
               \<lparr>bezier_Point.X = Point.X p1, Y = Point.Y p1\<rparr>],
              calls, rs2))"

section \<open>The radial axis (axis.go)\<close>

text \<open>
  \<^verbatim>\<open>plot.Tick\<close> of the plotting library, and its method \<^verbatim>\<open>IsMinor\<close>: a tick with an
  empty label is a minor tick.
\<close>

record Tick =
  Value :: real
  Label :: string

definition IsMinor :: "Tick \<Rightarrow> bool" where
  "IsMinor t = (Tick.Label t = [])"

text \<open>
  \<^verbatim>\<open>TextPlacement\<close>: from the angle of the axis to a rotation and two alignment
  fractions. The type is declared outside the two source files; its shape is read off the
  calls \<^verbatim>\<open>rot, xalign, yalign = r.Tick.Placement(r.Angle)\<close>.
\<close>

type_synonym TextPlacement = "Angle \<Rightarrow> Angle \<times> real \<times> real"

text \<open>
  The result of \<^verbatim>\<open>ArcOfer.ArcOf\<close>: the renderer reads the fields \<^verbatim>\<open>Theta\<close> and
  \<^verbatim>\<open>Phi\<close>.
\<close>

record Arc =
  Theta :: Angle
  Phi :: Angle

record AxisLabel =
  Text :: string
  TextStyle :: TextStyle
  Placement :: "TextPlacement option"

text \<open>
  \<^verbatim>\<open>Marker\<close> is a \<^verbatim>\<open>plot.Ticker\<close>; its method \<^verbatim>\<open>Ticks(min, max)\<close> is taken as a
  function of the two bounds. The parameters \<^verbatim>\<open>min\<close> and \<^verbatim>\<open>max\<close> of
  \<^verbatim>\<open>drawAt\<close> are written \<open>min'\<close> and \<open>max'\<close>.
\<close>

record TickConfig =
  Label :: TextStyle
  LineStyle :: LineStyle
  Placement :: "TextPlacement option"
  Length :: vg_Length
  Marker :: "real \<Rightarrow> real \<Rightarrow> Tick list"

record Axis =
  Angle :: Angle
  Label :: AxisLabel
  LineStyle :: LineStyle
  Tick :: TickConfig
  Grid :: LineStyle

text \<open>
  Modelled from the spec: the "complete turn" constant \<^verbatim>\<open>Complete\<close> of the angle type,
  declared outside the two source files; a quarter of it offsets a tick from the axis.
\<close>

definition Complete :: Angle where
  "Complete = 2 * pi"

text \<open>A panic, with the string it is raised with.\<close>

datatype error = Panic string



text \<open>
  Lines 96 to 109: the loop over the marks of one grid arc. \<^verbatim>\<open>pa\<close> is emptied at the
  start of each round, so the path that \<^verbatim>\<open>Stroke\<close> receives holds the two components
  of that round.
\<close>

fun grid_marks ::
  "(Angle \<Rightarrow> real \<Rightarrow> Point) \<Rightarrow> draw_Point \<Rightarrow> Arc \<Rightarrow> vg_Length \<Rightarrow> vg_Length \<Rightarrow> real \<Rightarrow> real
     \<Rightarrow> Tick list \<Rightarrow> call list" where
  "grid_marks Rectangular cen arc scale inner min' max' [] = []"
| "grid_marks Rectangular cen arc scale inner min' max' (mark # marks) =
     (if Value mark < min' \<or> Value mark > max'
      then grid_marks Rectangular cen arc scale inner min' max' marks
      else
        let radius = (Value mark - min') * scale + inner;
            e = Rectangular (Theta arc) radius;
            pa = [MoveComp (draw_Point.X cen + Point.X e) (draw_Point.Y cen + Point.Y e),
                  ArcComp (draw_Point.X cen) (draw_Point.Y cen) radius (Theta arc) (Phi arc)]
        in [Rectangular_call (Theta arc) radius, Stroke pa]
           @ grid_marks Rectangular cen arc scale inner min' max' marks)"

text \<open>
  Lines 88 to 110: the loop over the locations. \<^verbatim>\<open>base.ArcOf(loc, nil)\<close> is a function
  from a location to an error (the text of a non-nil \<^verbatim>\<open>err\<close>) or an arc. The result is
  the calls made and either the panic or the value of \<^verbatim>\<open>marks\<close> after the loop.
  \<^verbatim>\<open>fmt.Sprint\<close> puts no space between two operands when one of them is a string.
\<close>

fun grid_locs ::
  "(Angle \<Rightarrow> real \<Rightarrow> Point) \<Rightarrow> Axis \<Rightarrow> draw_Point \<Rightarrow> ('l \<Rightarrow> string + Arc) \<Rightarrow> vg_Length \<Rightarrow> vg_Length
     \<Rightarrow> real \<Rightarrow> real \<Rightarrow> 'l list \<Rightarrow> Tick list \<Rightarrow> call list \<times> (error + Tick list)" where
  "grid_locs Rectangular r cen base scale inner min' max' [] marks = ([], Inr marks)"
| "grid_locs Rectangular r cen base scale inner min' max' (loc # locs) marks =
     (case base loc of
        Inl err \<Rightarrow> ([], Inl (Panic (''rings: no arc for feature location:'' @ err)))
      | Inr arc \<Rightarrow>
          let marks = Marker (Tick r) min' max';
              tr = SetLineStyle (Grid r)
                   # grid_marks Rectangular cen arc scale inner min' max' marks;
              (tr', res) = grid_locs Rectangular r cen base scale inner min' max' locs marks
          in (tr @ tr', res))"

text \<open>
  Lines 87 to 111: the grid lines, drawn when the grid style has a colour and a width.
  \<^verbatim>\<open>marks\<close> is nil before the loop.
\<close>

definition draw_grid ::
  "(Angle \<Rightarrow> real \<Rightarrow> Point) \<Rightarrow> Axis \<Rightarrow> draw_Point \<Rightarrow> ('l \<Rightarrow> string + Arc) \<Rightarrow> vg_Length \<Rightarrow> vg_Length
     \<Rightarrow> real \<Rightarrow> real \<Rightarrow> 'l list \<Rightarrow> call list \<times> (error + Tick list)" where
  "draw_grid Rectangular r cen base scale inner min' max' locs =
     (if LineStyle.Color (Grid r) \<noteq> None \<and> Width (Grid r) \<noteq> 0
      then grid_locs Rectangular r cen base scale inner min' max' locs []
      else ([], Inr []))"

text \<open>Lines 113 to 123: the spine of the axis.\<close>

definition draw_spine ::
  "(Angle \<Rightarrow> real \<Rightarrow> Point) \<Rightarrow> Axis \<Rightarrow> draw_Point \<Rightarrow> vg_Length \<Rightarrow> vg_Length \<Rightarrow> call list" where
  "draw_spine Rectangular r cen inner outer =
     (if LineStyle.Color (Axis.LineStyle r) \<noteq> None \<and> Width (Axis.LineStyle r) \<noteq> 0
      then
        let e = Rectangular (Angle r) inner;
            pa = [MoveComp (draw_Point.X cen + Point.X e) (draw_Point.Y cen + Point.Y e)];
            e = Rectangular (Angle r) outer;
            pa = pa @ [LineComp (draw_Point.X cen + Point.X e) (draw_Point.Y cen + Point.Y e)]
        in [Rectangular_call (Angle r) inner, Rectangular_call (Angle r) outer,
            SetLineStyle (Axis.LineStyle r), Stroke pa]
      else [])"

text \<open>
  Lines 130 to 177: the loop over the marks of the axis. \<^verbatim>\<open>DefaultPlacement\<close> is a
  function of the package whose body is not among the sources, and a parameter here.
\<close>

fun tick_marks ::
  "(Angle \<Rightarrow> real \<Rightarrow> Point) \<Rightarrow> TextPlacement \<Rightarrow> Axis \<Rightarrow> draw_Point \<Rightarrow> vg_Length \<Rightarrow> vg_Length
     \<Rightarrow> real \<Rightarrow> real \<Rightarrow> Tick list \<Rightarrow> call list" where
  "tick_marks Rectangular DefaultPlacement r cen scale inner min' max' [] = []"
| "tick_marks Rectangular DefaultPlacement r cen scale inner min' max' (mark # marks) =
     (if Value mark < min' \<or> Value mark > max'
      then tick_marks Rectangular DefaultPlacement r cen scale inner min' max' marks
      else
        let radius = (Value mark - min') * scale + inner;
            length = (if IsMinor mark then TickConfig.Length (Tick r) / 2
                      else TickConfig.Length (Tick r));
            off = Rectangular (Angle r + Complete / 4) length;
            e = Rectangular (Angle r) radius;
            pa = [MoveComp (draw_Point.X cen + Point.X e) (draw_Point.Y cen + Point.Y e),
                  LineComp (draw_Point.X cen + (Point.X e + Point.X off))
                           (draw_Point.Y cen + (Point.Y e + Point.Y off))];
            stroke = [Rectangular_call (Angle r + Complete / 4) length,
                      Rectangular_call (Angle r) radius, Stroke pa]
        in if IsMinor mark \<or> TextStyle.Color (TickConfig.Label (Tick r)) = None
           then stroke @ tick_marks Rectangular DefaultPlacement r cen scale inner min' max' marks
           else
             let e = Rectangular (Angle r) radius;
                 x = (Point.X e + Point.X off * 2) + draw_Point.X cen;
                 y = (Point.Y e + Point.Y off * 2) + draw_Point.Y cen;
                 (rot, xalign, yalign) =
                   (case TickConfig.Placement (Tick r) of
                      None \<Rightarrow> DefaultPlacement (Angle r)
                    | Some placement \<Rightarrow> placement (Angle r))
             in stroke @ [Rectangular_call (Angle r) radius]
                @ (if rot \<noteq> 0
                   then [Push, Translate x y, Rotate rot, Translate (- x) (- y),
                         FillText (TickConfig.Label (Tick r)) x y xalign yalign (Tick.Label mark),
                         Pop]
                   else [FillText (TickConfig.Label (Tick r)) x y xalign yalign (Tick.Label mark)])
                @ tick_marks Rectangular DefaultPlacement r cen scale inner min' max' marks)"

text \<open>
  Lines 125 to 178: the tick marks. \<^verbatim>\<open>marks\<close> is what the grid loop left (nil when
  that loop did not run); a nil slice is the empty list, and the marker, a function of
  the bounds, returns the same marks when it is asked again.
\<close>

definition draw_ticks ::
  "(Angle \<Rightarrow> real \<Rightarrow> Point) \<Rightarrow> TextPlacement \<Rightarrow> Axis \<Rightarrow> draw_Point \<Rightarrow> vg_Length \<Rightarrow> vg_Length
     \<Rightarrow> real \<Rightarrow> real \<Rightarrow> Tick list \<Rightarrow> call list" where
  "draw_ticks Rectangular DefaultPlacement r cen scale inner min' max' marks =
     (if LineStyle.Color (TickConfig.LineStyle (Tick r)) \<noteq> None
         \<and> Width (TickConfig.LineStyle (Tick r)) \<noteq> 0 \<and> TickConfig.Length (Tick r) \<noteq> 0
      then
        let marks = (if marks = [] then Marker (Tick r) min' max' else marks)
        in SetLineStyle (TickConfig.LineStyle (Tick r))
           # tick_marks Rectangular DefaultPlacement r cen scale inner min' max' marks
      else [])"

text \<open>Lines 180 to 203: the label of the axis.\<close>

definition draw_label ::
  "(Angle \<Rightarrow> real \<Rightarrow> Point) \<Rightarrow> TextPlacement \<Rightarrow> Axis \<Rightarrow> draw_Point \<Rightarrow> vg_Length \<Rightarrow> vg_Length
     \<Rightarrow> call list" where
  "draw_label Rectangular DefaultPlacement r cen inner outer =
     (if Text (Axis.Label r) \<noteq> [] \<and> TextStyle.Color (TextStyle (Axis.Label r)) \<noteq> None
      then
        let e = Rectangular (Angle r) ((inner + outer) / 2);
            x = Point.X e + draw_Point.X cen;
            y = Point.Y e + draw_Point.Y cen;
            (rot, xalign, yalign) =
              (case AxisLabel.Placement (Axis.Label r) of
                 None \<Rightarrow> DefaultPlacement (Angle r)
               | Some placement \<Rightarrow> placement (Angle r))
        in Rectangular_call (Angle r) ((inner + outer) / 2)
           # (if rot \<noteq> 0
              then [Push, Translate x y, Rotate rot, Translate (- x) (- y),
                    FillText (TextStyle (Axis.Label r)) x y xalign yalign (Text (Axis.Label r)),
                    Pop]
              else [FillText (TextStyle (Axis.Label r)) x y xalign yalign (Text (Axis.Label r))])
      else [])"

text \<open>
  \<^verbatim>\<open>Axis.drawAt\<close>. \<open>locs\<close> is the order in which the \<^verbatim>\<open>range\<close> over \<^verbatim>\<open>locMap\<close>
  yields the locations. The result is the calls made on the canvas and on the projection,
  in order, and \<open>Inr ()\<close> for a return or \<open>Inl\<close> the panic; the calls made before a panic
  are kept.
\<close>

definition drawAt ::
  "(Angle \<Rightarrow> real \<Rightarrow> Point) \<Rightarrow> TextPlacement \<Rightarrow> Axis \<Rightarrow> draw_Point \<Rightarrow> 'l list
     \<Rightarrow> ('l \<Rightarrow> string + Arc) \<Rightarrow> vg_Length \<Rightarrow> vg_Length \<Rightarrow> real \<Rightarrow> real
     \<Rightarrow> call list \<times> (error + unit)" where
  "drawAt Rectangular DefaultPlacement r cen locs base inner outer min' max' =
     (let scale = (outer - inner) / (max' - min');
          (grid, res) = draw_grid Rectangular r cen base scale inner min' max' locs
      in case res of
           Inl err \<Rightarrow> (grid, Inl err)
         | Inr marks \<Rightarrow>
             (grid
              @ draw_spine Rectangular r cen inner outer
              @ draw_ticks Rectangular DefaultPlacement r cen scale inner min' max' marks
              @ draw_label Rectangular DefaultPlacement r cen inner outer,
              Inr ()))"

text \<open>
  A marker restricted to the marks in the range it is asked for: what \<open>M\<close> returns,
  without the marks whose value is less than the lower or greater than the upper bound.
\<close>

definition in_range_only :: "(real \<Rightarrow> real \<Rightarrow> Tick list) \<Rightarrow> real \<Rightarrow> real \<Rightarrow> Tick list" where
  "in_range_only M lo hi = filter (\<lambda>m. \<not> (Value m < lo \<or> Value m > hi)) (M lo hi)"

text \<open>
  The state of a canvas that the transforming calls act on: the transforms applied to
  the current coordinate system, and the stack of the systems saved by \<^verbatim>\<open>Push\<close>.
  \<^verbatim>\<open>Pop\<close> on an empty stack has no result.
\<close>

type_synonym canvas = "call list \<times> call list list"

fun canvas_call :: "call \<Rightarrow> canvas \<Rightarrow> canvas option" where
  "canvas_call Push (cur, stack) = Some (cur, cur # stack)"
| "canvas_call Pop (cur, []) = None"
| "canvas_call Pop (cur, saved # stack) = Some (saved, stack)"
| "canvas_call (Translate x y) (cur, stack) = Some (cur @ [Translate x y], stack)"
| "canvas_call (Rotate t) (cur, stack) = Some (cur @ [Rotate t], stack)"
| "canvas_call c (cur, stack) = Some (cur, stack)"

fun canvas_calls :: "call list \<Rightarrow> canvas \<Rightarrow> canvas option" where
  "canvas_calls [] ca = Some ca"
| "canvas_calls (c # cs) ca =
     (case canvas_call c ca of None \<Rightarrow> None | Some ca' \<Rightarrow> canvas_calls cs ca')"

text \<open>
  The text draws of a trace, each with the rotation it is drawn under: the rotation of
  the bracket \<^verbatim>\<open>Push, Translate(x, y), Rotate(rot), Translate(-x, -y), FillText, Pop\<close>
  around it (a nonzero rotation about the anchor of the text), or \<open>0\<close> for a draw outside
  a bracket. There is no result when a transforming call stands outside such a bracket.
\<close>

fun text_draws :: "call list \<Rightarrow> (real \<times> call) list option" where
  "text_draws [] = Some []"
| "text_draws (c # cs) =
     (case c of
        Push \<Rightarrow>
          (case cs of
             Translate x y # Rotate rot # Translate x' y' # FillText sty tx ty xa ya s # Pop
               # cs' \<Rightarrow>
               if rot \<noteq> 0 \<and> x' = - x \<and> y' = - y \<and> tx = x \<and> ty = y
               then map_option ((#) (rot, FillText sty tx ty xa ya s)) (text_draws cs')
               else None
           | _ \<Rightarrow> None)
      | Pop \<Rightarrow> None
      | Translate x y \<Rightarrow> None
      | Rotate t \<Rightarrow> None
      | FillText sty tx ty xa ya s \<Rightarrow> map_option ((#) (0, c)) (text_draws cs)
      | _ \<Rightarrow> text_draws cs)"


text \<open>
  Ranges of a configuration: a length distribution whose base length and set bounds are
  not negative, and a factor distribution whose factor and set bounds lie in \<open>[0, 1]\<close>.
\<close>

definition LengthDist_nonneg :: "LengthDist \<Rightarrow> bool" where
  "LengthDist_nonneg p =
     (0 \<le> LengthDist.Length p
      \<and> (case LengthDist.Min p of None \<Rightarrow> True | Some m \<Rightarrow> 0 \<le> m)
      \<and> (case LengthDist.Max p of None \<Rightarrow> True | Some m \<Rightarrow> 0 \<le> m))"

definition FactorDist_unit :: "FactorDist \<Rightarrow> bool" where
  "FactorDist_unit p =
     (0 \<le> Factor p \<and> Factor p \<le> 1
      \<and> (case FactorDist.Min p of None \<Rightarrow> True | Some m \<Rightarrow> 0 \<le> m \<and> m \<le> 1)
      \<and> (case FactorDist.Max p of None \<Rightarrow> True | Some m \<Rightarrow> 0 \<le> m \<and> m \<le> 1))"

section \<open>Sample inputs\<close>

text \<open>
  Values for the parameters, used where a property is evaluated on an input: the polar
  projection for \<^verbatim>\<open>Rectangular\<close>, a placement without rotation for
  \<^verbatim>\<open>DefaultPlacement\<close>, an axis with a grid, a spine, ticks and a label rotated by its
  own placement, a marker with a major mark, a minor mark and a mark out of the range
  \<open>[0, 1]\<close>, an arc lookup that knows the locations \<open>0\<close> and \<open>1\<close>, and a link configuration
  with a crest and a purity.
\<close>

definition sample_Rectangular :: "Angle \<Rightarrow> real \<Rightarrow> Point" where
  "sample_Rectangular a r = \<lparr>Point.X = r * cos a, Y = r * sin a\<rparr>"

definition sample_style :: LineStyle where
  "sample_style = \<lparr>LineStyle.Color = Some (RGBA 0 0 0 255), Width = 1, Dashes = [], DashOffs = 0\<rparr>"

definition sample_text :: TextStyle where
  "sample_text = \<lparr>TextStyle.Color = Some (RGBA 0 0 0 255), Font = ''Helvetica''\<rparr>"

definition sample_marker :: "real \<Rightarrow> real \<Rightarrow> Tick list" where
  "sample_marker lo hi =
     [\<lparr>Value = 0, Label = ''0''\<rparr>, \<lparr>Value = 1 / 2, Label = []\<rparr>, \<lparr>Value = 2, Label = ''2''\<rparr>]"

definition sample_placement :: TextPlacement where
  "sample_placement a = (0, 0, 1 / 2)"

definition sample_axis :: Axis where
  "sample_axis =
     \<lparr>Angle = 0,
      Label = \<lparr>Text = ''score'', TextStyle = sample_text, Placement = Some (\<lambda>a. (1, 1 / 2, 0))\<rparr>,
      LineStyle = sample_style,
      Tick = \<lparr>TickConfig.Label = sample_text, LineStyle = sample_style, Placement = None,
              Length = 1, Marker = sample_marker\<rparr>,
      Grid = sample_style\<rparr>"

definition sample_base :: "nat \<Rightarrow> string + Arc" where
  "sample_base loc = (if loc < 2 then Inr \<lparr>Theta = 0, Phi = 1\<rparr> else Inl ''unknown feature'')"

definition sample_bezier :: Bezier where
  "sample_bezier =
     \<lparr>Segments = 10,
      Radius = \<lparr>LengthDist.Length = 1, Min = Some (1 / 2), Max = None\<rparr>,
      Crest = Some \<lparr>Factor = 1 / 2, Min = None, Max = None\<rparr>,
      Purity = Some \<lparr>Factor = 1 / 2, Min = None, Max = Some (1 / 2)\<rparr>\<rparr>"

lemmas sample_defs = sample_Rectangular_def sample_style_def sample_text_def sample_marker_def
  sample_placement_def sample_axis_def sample_base_def

lemmas render_defs = drawAt_def draw_grid_def draw_spine_def draw_ticks_def draw_label_def
  Let_def IsMinor_def Complete_def

section \<open>Properties of the perturbation distributions\<close>

text \<open>
  C5: with both bounds nil, \<^verbatim>\<open>Perturb\<close> returns the base magnitude unchanged, for a
  length distribution and for a factor distribution, whatever the factor \<open>f\<close> (in
  particular for \<open>f\<close> in \<open>[0,1)\<close>).
\<close>

theorem Perturb_nil_bounds_identity:
  "LengthDist_Perturb \<lparr>LengthDist.Length = l, LengthDist.Min = None, LengthDist.Max = None\<rparr> f = l
   \<and> FactorDist_Perturb \<lparr>Factor = k, FactorDist.Min = None, FactorDist.Max = None\<rparr> f = k"
  by (simp add: LengthDist_Perturb_def FactorDist_Perturb_def)

text \<open>
  C10: with exactly one bound set, the nil bound counts as the multiplier \<open>1\<close>:
  \<^verbatim>\<open>Perturb(f)\<close> is the base times \<open>min + (max - min) * f\<close> with \<open>1\<close> for the absent
  bound, for both kinds of distribution and every \<open>f\<close>; with \<open>Min = 0.5\<close> and \<open>Max\<close>
  nil that is the base times \<open>0.5 + 0.5 * f\<close>.
\<close>

theorem Perturb_one_bound_nil:
  "LengthDist_Perturb \<lparr>LengthDist.Length = l, LengthDist.Min = Some m, LengthDist.Max = None\<rparr> f = l * (m + (1 - m) * f)
   \<and> LengthDist_Perturb \<lparr>LengthDist.Length = l, LengthDist.Min = None, LengthDist.Max = Some m\<rparr> f = l * (1 + (m - 1) * f)
   \<and> FactorDist_Perturb \<lparr>Factor = k, FactorDist.Min = Some m, FactorDist.Max = None\<rparr> f = k * (m + (1 - m) * f)
   \<and> FactorDist_Perturb \<lparr>Factor = k, FactorDist.Min = None, FactorDist.Max = Some m\<rparr> f = k * (1 + (m - 1) * f)
   \<and> LengthDist_Perturb \<lparr>LengthDist.Length = l, LengthDist.Min = Some (1 / 2), LengthDist.Max = None\<rparr> f
       = l * (1 / 2 + 1 / 2 * f)"
  by (simp add: LengthDist_Perturb_def FactorDist_Perturb_def)

section \<open>Properties of the control points\<close>

text \<open>
  C1: \<^verbatim>\<open>ControlPoints\<close> returns three points when \<^verbatim>\<open>Crest\<close> is nil and five when it is
  set. In both cases the first and the last point are the projections of the two
  (angle, radius) pairs, so the ends of the five points are the ends of the three points,
  whatever the crest and the random samples.
\<close>

theorem ControlPoints_length_and_ends:
  "length (fst (ControlPoints R b a rad rs)) = (case Crest b of None \<Rightarrow> 3 | Some c \<Rightarrow> 5)
   \<and> hd (fst (ControlPoints R b a rad rs))
       = \<lparr>bezier_Point.X = Point.X (R (fst a) (fst rad)), Y = Point.Y (R (fst a) (fst rad))\<rparr>
   \<and> last (fst (ControlPoints R b a rad rs))
       = \<lparr>bezier_Point.X = Point.X (R (snd a) (snd rad)), Y = Point.Y (R (snd a) (snd rad))\<rparr>
   \<and> hd (fst (ControlPoints R (b\<lparr>Crest := Some c\<rparr>) a rad rs))
       = hd (fst (ControlPoints R (b\<lparr>Crest := None\<rparr>) a rad rs'))
   \<and> last (fst (ControlPoints R (b\<lparr>Crest := Some c\<rparr>) a rad rs))
       = last (fst (ControlPoints R (b\<lparr>Crest := None\<rparr>) a rad rs'))"
  by (simp add: ControlPoints_def Let_def split: option.splits prod.splits)

text \<open>
  C2: the angle at which the midpoint control point is projected (the third projection
  call, whose result is the middle point of the returned sequence) is
  \<open>(a0 + a1 + 2\<pi>) / 2 - 2\<pi>\<close> when \<open>|a1 - a0|\<close> exceeds \<open>\<pi>\<close>, and the average
  \<open>(a0 + a1) / 2\<close> otherwise.
\<close>

theorem ControlPoints_bisecting_angle:
  "\<exists>r. fst (snd (ControlPoints R b (a0, a1) rad rs)) ! 2
         = Rectangular_call
             (if \<bar>a1 - a0\<bar> > pi then (a0 + a1 + 2 * pi) / 2 - 2 * pi else (a0 + a1) / 2) r
       \<and> fst (ControlPoints R b (a0, a1) rad rs) ! (case Crest b of None \<Rightarrow> 1 | Some c \<Rightarrow> 2)
         = (let mp = R (if \<bar>a1 - a0\<bar> > pi then (a0 + a1 + 2 * pi) / 2 - 2 * pi
                        else (a0 + a1) / 2) r
            in \<lparr>bezier_Point.X = Point.X mp, Y = Point.Y mp\<rparr>)"
  by (simp add: ControlPoints_def bisect_def Let_def add.commute
           split: option.splits prod.splits)

text \<open>
  C3: with \<^verbatim>\<open>Purity\<close> set, the working radius is the base length of \<^verbatim>\<open>Radius\<close> plus
  \<open>(purityFactor - 1) * (radius - bisectRadius)\<close>, where \<open>purityFactor\<close> is the purity
  distribution's \<^verbatim>\<open>Perturb\<close> of the next random sample and \<open>bisectRadius\<close> the distance
  from the origin to the midpoint of the two projected ends; the midpoint control point is
  projected at the \<^verbatim>\<open>Perturb\<close> of that working radius (with the sample after). With
  \<^verbatim>\<open>Purity\<close> nil the working radius is \<^verbatim>\<open>Radius\<close> as configured.
\<close>

theorem ControlPoints_purity_radius:
  "(let p0 = R (fst a) (fst rad); p1 = R (snd a) (snd rad);
        bisectRadius = sqrt (((Point.X p0 + Point.X p1) / 2)\<^sup>2
                             + ((Point.Y p0 + Point.Y p1) / 2)\<^sup>2);
        purityFactor = FactorDist_Perturb purity (shd rs);
        radius = LengthDist.Length (Radius b)
    in fst (working_radius (b\<lparr>Purity := Some purity\<rparr>) p0 p1 rs)
         = (Radius b)\<lparr>LengthDist.Length := radius + (purityFactor - 1) * (radius - bisectRadius)\<rparr>
       \<and> fst (snd (ControlPoints R (b\<lparr>Purity := Some purity\<rparr>) a rad rs)) ! 2
         = Rectangular_call (bisect a)
             (LengthDist_Perturb
               ((Radius b)\<lparr>LengthDist.Length := radius + (purityFactor - 1) * (radius - bisectRadius)\<rparr>)
               (shd (stl rs)))
       \<and> fst (working_radius (b\<lparr>Purity := None\<rparr>) p0 p1 rs) = Radius b
       \<and> fst (snd (ControlPoints R (b\<lparr>Purity := None\<rparr>) a rad rs)) ! 2
         = Rectangular_call (bisect a) (LengthDist_Perturb (Radius b) (shd rs)))"
  by (simp add: ControlPoints_def working_radius_def rand_Float64_def Hypot_def Let_def
           power2_eq_square split: option.splits prod.splits)

section \<open>Properties of the axis renderer\<close>

subsection \<open>The loops, piecewise\<close>

lemma grid_marks_append:
  "grid_marks R cen arc scale inner min' max' (xs @ ys)
     = grid_marks R cen arc scale inner min' max' xs @ grid_marks R cen arc scale inner min' max' ys"
  by (induction xs) (simp_all add: Let_def)

lemma tick_marks_append:
  "tick_marks R DP r cen scale inner min' max' (xs @ ys)
     = tick_marks R DP r cen scale inner min' max' xs @ tick_marks R DP r cen scale inner min' max' ys"
  by (induction xs) (simp_all add: Let_def case_prod_beta)

lemma grid_marks_filter:
  "grid_marks R cen arc scale inner min' max' (filter (\<lambda>m. \<not> (Value m < min' \<or> Value m > max')) marks)
     = grid_marks R cen arc scale inner min' max' marks"
  by (induction marks) (simp_all add: Let_def)

lemma tick_marks_filter:
  "tick_marks R DP r cen scale inner min' max' (filter (\<lambda>m. \<not> (Value m < min' \<or> Value m > max')) marks)
     = tick_marks R DP r cen scale inner min' max' marks"
  by (induction marks) (simp_all add: Let_def case_prod_beta)

lemma grid_marks_in_range_only:
  "grid_marks R cen arc scale inner min' max' (in_range_only M min' max')
     = grid_marks R cen arc scale inner min' max' (M min' max')"
  unfolding in_range_only_def by (rule grid_marks_filter)

lemma tick_marks_in_range_only:
  "tick_marks R DP r cen scale inner min' max' (in_range_only M min' max')
     = tick_marks R DP r cen scale inner min' max' (M min' max')"
  unfolding in_range_only_def by (rule tick_marks_filter)

lemma tick_marks_Marker_update:
  "tick_marks R DP (r\<lparr>Tick := (Tick r)\<lparr>Marker := M\<rparr>\<rparr>) cen scale inner min' max' marks
     = tick_marks R DP r cen scale inner min' max' marks"
  by (induction marks) (simp_all add: Let_def case_prod_beta cong: option.case_cong)

lemma draw_spine_Marker_update:
  "draw_spine R (r\<lparr>Tick := (Tick r)\<lparr>Marker := M\<rparr>\<rparr>) cen inner outer = draw_spine R r cen inner outer"
  by (simp add: draw_spine_def Let_def)

lemma draw_label_Marker_update:
  "draw_label R DP (r\<lparr>Tick := (Tick r)\<lparr>Marker := M\<rparr>\<rparr>) cen inner outer
     = draw_label R DP r cen inner outer"
  by (simp add: draw_label_def Let_def case_prod_beta cong: option.case_cong)

lemma tick_marks_in_range_only_Nil:
  "in_range_only M min' max' = []
     \<Longrightarrow> tick_marks R DP r cen scale inner min' max' (M min' max') = []"
  using tick_marks_in_range_only [of R DP r cen scale inner min' max' M] by simp

lemma draw_ticks_in_range_only:
  "draw_ticks R DP (r\<lparr>Tick := (Tick r)\<lparr>Marker := in_range_only (Marker (Tick r))\<rparr>\<rparr>) cen scale inner
       min' max' []
     = draw_ticks R DP r cen scale inner min' max' (Marker (Tick r) min' max')"
  "draw_ticks R DP (r\<lparr>Tick := (Tick r)\<lparr>Marker := in_range_only (Marker (Tick r))\<rparr>\<rparr>) cen scale inner
       min' max' (in_range_only (Marker (Tick r)) min' max')
     = draw_ticks R DP r cen scale inner min' max' (Marker (Tick r) min' max')"
  "draw_ticks R DP r cen scale inner min' max' []
     = draw_ticks R DP r cen scale inner min' max' (Marker (Tick r) min' max')"
  by (simp_all add: draw_ticks_def Let_def tick_marks_Marker_update tick_marks_in_range_only
        tick_marks_in_range_only_Nil)

lemma grid_locs_marks:
  "grid_locs R r cen base scale inner min' max' locs marks = (tr, Inr ms)
     \<Longrightarrow> ms = (if locs = [] then marks else Marker (Tick r) min' max')"
proof (induction locs arbitrary: marks tr)
  case Nil
  then show ?case by simp
next
  case (Cons loc locs)
  show ?case
  proof (cases "base loc")
    case (Inl err)
    with Cons.prems show ?thesis by simp
  next
    case (Inr arc)
    obtain tr' res where g: "grid_locs R r cen base scale inner min' max' locs
        (Marker (Tick r) min' max') = (tr', res)"
      by (cases "grid_locs R r cen base scale inner min' max' locs (Marker (Tick r) min' max')")
    with Cons.prems Inr have "res = Inr ms" by (simp add: Let_def)
    with g Cons.IH [of "Marker (Tick r) min' max'" tr'] show ?thesis by simp
  qed
qed

text \<open>
  With the restricted marker the grid loop makes the same calls and has the same outcome;
  only the marks it leaves differ.
\<close>

lemma grid_locs_in_range_only:
  "fst (grid_locs R (r\<lparr>Tick := (Tick r)\<lparr>Marker := in_range_only (Marker (Tick r))\<rparr>\<rparr>)
         cen base scale inner min' max' locs marks')
     = fst (grid_locs R r cen base scale inner min' max' locs marks)
   \<and> isl (snd (grid_locs R (r\<lparr>Tick := (Tick r)\<lparr>Marker := in_range_only (Marker (Tick r))\<rparr>\<rparr>)
         cen base scale inner min' max' locs marks'))
     = isl (snd (grid_locs R r cen base scale inner min' max' locs marks))
   \<and> (isl (snd (grid_locs R r cen base scale inner min' max' locs marks)) \<longrightarrow>
       snd (grid_locs R (r\<lparr>Tick := (Tick r)\<lparr>Marker := in_range_only (Marker (Tick r))\<rparr>\<rparr>)
         cen base scale inner min' max' locs marks')
       = map_sum id (\<lambda>_. []) (snd (grid_locs R r cen base scale inner min' max' locs marks)))"
proof (induction locs arbitrary: marks marks')
  case Nil
  show ?case by simp
next
  case (Cons loc locs)
  show ?case
  proof (cases "base loc")
    case (Inl err)
    then show ?thesis by simp
  next
    case (Inr arc)
    show ?thesis
      using Cons.IH [of "in_range_only (Marker (Tick r)) min' max'" "Marker (Tick r) min' max'"] Inr
      by (simp add: Let_def case_prod_beta grid_marks_in_range_only)
  qed
qed

lemma draw_grid_marks:
  "draw_grid R r cen base scale inner min' max' locs = (tr, Inr ms)
     \<Longrightarrow> ms = [] \<or> ms = Marker (Tick r) min' max'"
  using grid_locs_marks [of R r cen base scale inner min' max' locs "[]" tr ms]
  by (auto simp: draw_grid_def split: if_splits)

lemma draw_grid_in_range_only:
  "fst (draw_grid R (r\<lparr>Tick := (Tick r)\<lparr>Marker := in_range_only (Marker (Tick r))\<rparr>\<rparr>)
         cen base scale inner min' max' locs)
     = fst (draw_grid R r cen base scale inner min' max' locs)
   \<and> isl (snd (draw_grid R (r\<lparr>Tick := (Tick r)\<lparr>Marker := in_range_only (Marker (Tick r))\<rparr>\<rparr>)
         cen base scale inner min' max' locs))
     = isl (snd (draw_grid R r cen base scale inner min' max' locs))
   \<and> (isl (snd (draw_grid R r cen base scale inner min' max' locs)) \<longrightarrow>
       snd (draw_grid R (r\<lparr>Tick := (Tick r)\<lparr>Marker := in_range_only (Marker (Tick r))\<rparr>\<rparr>)
         cen base scale inner min' max' locs)
       = map_sum id (\<lambda>_. []) (snd (draw_grid R r cen base scale inner min' max' locs)))"
  using grid_locs_in_range_only [of R r cen base scale inner min' max' locs "[]" "[]"]
  by (simp add: draw_grid_def)

lemma drawAt_in_range_only:
  "drawAt R DP (r\<lparr>Tick := (Tick r)\<lparr>Marker := in_range_only (Marker (Tick r))\<rparr>\<rparr>)
       cen locs base inner outer min' max'
   = drawAt R DP r cen locs base inner outer min' max'"
proof -
  let ?r = "r\<lparr>Tick := (Tick r)\<lparr>Marker := in_range_only (Marker (Tick r))\<rparr>\<rparr>"
  let ?scale = "(outer - inner) / (max' - min')"
  let ?M = "Marker (Tick r) min' max'"
  obtain tr res where g: "draw_grid R r cen base ?scale inner min' max' locs = (tr, res)"
    by (cases "draw_grid R r cen base ?scale inner min' max' locs")
  obtain tr' res' where g': "draw_grid R ?r cen base ?scale inner min' max' locs = (tr', res')"
    by (cases "draw_grid R ?r cen base ?scale inner min' max' locs")
  note rel = draw_grid_in_range_only [of R r cen base ?scale inner min' max' locs]
  have tr: "tr' = tr" using rel g g' by simp
  show ?thesis
  proof (cases res)
    case (Inl e)
    then have "res' = Inl e" using rel g g' by simp
    with Inl tr g g' show ?thesis by (simp add: drawAt_def Let_def)
  next
    case (Inr ms)
    then obtain ms' where r': "res' = Inr ms'" using rel g g' by (cases res') simp_all
    have ms: "ms = [] \<or> ms = ?M"
      using draw_grid_marks [of R r cen base ?scale inner min' max' locs tr ms] g Inr by simp
    have ms': "ms' = [] \<or> ms' = in_range_only (Marker (Tick r)) min' max'"
      using draw_grid_marks [of R ?r cen base ?scale inner min' max' locs tr' ms'] g' r' by simp
    have "draw_ticks R DP ?r cen ?scale inner min' max' ms'
            = draw_ticks R DP r cen ?scale inner min' max' ms"
      using ms ms' draw_ticks_in_range_only [of R DP r cen ?scale inner min' max'] by auto
    with Inr r' tr g g' show ?thesis
      by (simp add: drawAt_def Let_def draw_spine_Marker_update draw_label_Marker_update)
  qed
qed

lemma radii_append: "radii (xs @ ys) = radii xs @ radii ys"
  by (induction xs rule: radii.induct) simp_all

subsection \<open>Marks out of range\<close>

text \<open>
  C4: a mark returned by the marker whose value is less than \<^verbatim>\<open>min\<close> or greater than
  \<^verbatim>\<open>max\<close> causes no call at all, in the grid loop and in the tick loop: each loop makes
  the same calls with the mark as without it. For the whole render, the calls and the
  outcome are those of the render with the marker restricted to the marks in range.
\<close>

theorem out_of_range_marks_not_drawn:
  assumes "Value mark < min' \<or> Value mark > max'"
  shows "grid_marks R cen arc scale inner min' max' (pre @ mark # post)
           = grid_marks R cen arc scale inner min' max' (pre @ post)
         \<and> tick_marks R DP r cen scale inner min' max' (pre @ mark # post)
           = tick_marks R DP r cen scale inner min' max' (pre @ post)
         \<and> drawAt R DP r cen locs base inner outer min' max'
           = drawAt R DP (r\<lparr>Tick := (Tick r)\<lparr>Marker := in_range_only (Marker (Tick r))\<rparr>\<rparr>)
               cen locs base inner outer min' max'"
  using assms by (auto simp: grid_marks_append tick_marks_append drawAt_in_range_only)

text \<open>
  The sample marker returns a mark at \<open>2\<close>, out of the range \<open>[0, 1]\<close>.
\<close>

theorem out_of_range_marks_not_drawn_witness:
  "(Value \<lparr>Value = 2, Label = ''2''\<rparr> < 0 \<or> Value \<lparr>Value = 2, Label = ''2''\<rparr> > (1::real))
   \<and> grid_marks sample_Rectangular \<lparr>draw_Point.X = 0, Y = 0\<rparr> \<lparr>Theta = 0, Phi = 1\<rparr> 1 1 0 1
         (sample_marker 0 1)
       = grid_marks sample_Rectangular \<lparr>draw_Point.X = 0, Y = 0\<rparr> \<lparr>Theta = 0, Phi = 1\<rparr> 1 1 0 1
           [\<lparr>Value = 0, Label = ''0''\<rparr>, \<lparr>Value = 1 / 2, Label = []\<rparr>]
   \<and> tick_marks sample_Rectangular sample_placement sample_axis \<lparr>draw_Point.X = 0, Y = 0\<rparr> 1 1 0 1
         (sample_marker 0 1)
       = tick_marks sample_Rectangular sample_placement sample_axis \<lparr>draw_Point.X = 0, Y = 0\<rparr> 1 1 0 1
           [\<lparr>Value = 0, Label = ''0''\<rparr>, \<lparr>Value = 1 / 2, Label = []\<rparr>]
   \<and> drawAt sample_Rectangular sample_placement sample_axis \<lparr>draw_Point.X = 0, Y = 0\<rparr>
         [0::nat, 1] sample_base 1 2 0 1
       = drawAt sample_Rectangular sample_placement
           (sample_axis\<lparr>Tick := (Tick sample_axis)\<lparr>Marker := in_range_only sample_marker\<rparr>\<rparr>)
           \<lparr>draw_Point.X = 0, Y = 0\<rparr> [0::nat, 1] sample_base 1 2 0 1"
  using out_of_range_marks_not_drawn
    [where mark = "\<lparr>Value = 2, Label = ''2''\<rparr>" and min' = 0 and max' = 1
       and pre = "[\<lparr>Value = 0, Label = ''0''\<rparr>, \<lparr>Value = 1 / 2, Label = []\<rparr>]" and post = "[]"
       and R = sample_Rectangular and DP = sample_placement and r = sample_axis
       and cen = "\<lparr>draw_Point.X = 0, Y = 0\<rparr>" and arc = "\<lparr>Theta = 0, Phi = 1\<rparr>"
       and scale = 1 and inner = 1 and outer = 2 and locs = "[0::nat, 1]" and base = sample_base]
  by (simp add: sample_marker_def sample_axis_def)

subsection \<open>The radius of a mark\<close>



subsection \<open>The fatal error of the grid loop\<close>






subsection \<open>The transforms of the canvas\<close>

lemma canvas_calls_append:
  "canvas_calls (xs @ ys) ca
     = (case canvas_calls xs ca of None \<Rightarrow> None | Some ca' \<Rightarrow> canvas_calls ys ca')"
  by (induction xs arbitrary: ca) (simp_all split: option.splits)

lemma canvas_calls_grid_marks:
  "canvas_calls (grid_marks R cen arc scale inner min' max' marks) ca = Some ca"
  by (induction marks) (cases ca, simp_all add: Let_def)+

lemma canvas_calls_grid_locs:
  "canvas_calls (fst (grid_locs R r cen base scale inner min' max' locs marks)) ca = Some ca"
proof (induction locs arbitrary: marks)
  case Nil
  show ?case by simp
next
  case (Cons loc locs)
  obtain cur stack where ca: "ca = (cur, stack)" by (cases ca)
  show ?case
    using Cons.IH [of "Marker (Tick r) min' max'"]
    by (cases "base loc")
       (simp_all add: Let_def case_prod_beta canvas_calls_append canvas_calls_grid_marks ca)
qed

lemma canvas_calls_draw_grid:
  "canvas_calls (fst (draw_grid R r cen base scale inner min' max' locs)) ca = Some ca"
  by (simp add: draw_grid_def canvas_calls_grid_locs)

lemma canvas_calls_draw_spine:
  "canvas_calls (draw_spine R r cen inner outer) ca = Some ca"
  by (cases ca) (simp add: draw_spine_def Let_def)

lemma canvas_calls_tick_marks:
  "canvas_calls (tick_marks R DP r cen scale inner min' max' marks) ca = Some ca"
proof (induction marks)
  case Nil
  show ?case by simp
next
  case (Cons mark marks)
  obtain cur stack where ca: "ca = (cur, stack)" by (cases ca)
  from Cons.IH show ?case
    by (simp add: Let_def case_prod_beta canvas_calls_append ca)
qed

lemma canvas_calls_draw_ticks:
  "canvas_calls (draw_ticks R DP r cen scale inner min' max' marks) ca = Some ca"
  by (cases ca) (simp add: draw_ticks_def Let_def canvas_calls_tick_marks)

lemma canvas_calls_draw_label:
  "canvas_calls (draw_label R DP r cen inner outer) ca = Some ca"
  by (cases ca) (simp add: draw_label_def Let_def case_prod_beta)

lemma canvas_calls_drawAt:
  "canvas_calls (fst (drawAt R DP r cen locs base inner outer min' max')) ca = Some ca"
  using canvas_calls_draw_grid [of R r cen base "(outer - inner) / (max' - min')" inner min' max' locs ca]
  by (simp add: drawAt_def Let_def case_prod_beta canvas_calls_append canvas_calls_draw_spine
        canvas_calls_draw_ticks canvas_calls_draw_label split: sum.splits)

lemma count_Push_Pop_grid_marks:
  "count_list (grid_marks R cen arc scale inner min' max' marks) Push = 0
   \<and> count_list (grid_marks R cen arc scale inner min' max' marks) Pop = 0"
  by (induction marks) (simp_all add: Let_def)

lemma count_Push_Pop_grid_locs:
  "count_list (fst (grid_locs R r cen base scale inner min' max' locs marks)) Push = 0
   \<and> count_list (fst (grid_locs R r cen base scale inner min' max' locs marks)) Pop = 0"
proof (induction locs arbitrary: marks)
  case Nil
  show ?case by simp
next
  case (Cons loc locs)
  show ?case
    using Cons.IH [of "Marker (Tick r) min' max'"]
    by (cases "base loc") (simp_all add: Let_def case_prod_beta count_Push_Pop_grid_marks)
qed

lemma count_Push_Pop_tick_marks:
  "count_list (tick_marks R DP r cen scale inner min' max' marks) Push
     = count_list (tick_marks R DP r cen scale inner min' max' marks) Pop"
  by (induction marks) (simp_all add: Let_def case_prod_beta)

lemma count_Push_Pop_drawAt:
  "count_list (fst (drawAt R DP r cen locs base inner outer min' max')) Push
     = count_list (fst (drawAt R DP r cen locs base inner outer min' max')) Pop"
  using count_Push_Pop_grid_locs [of R r cen base "(outer - inner) / (max' - min')" inner min' max' locs "[]"]
  by (simp add: drawAt_def draw_grid_def draw_spine_def draw_ticks_def draw_label_def Let_def
        case_prod_beta count_Push_Pop_tick_marks split: sum.splits)

lemma text_draws_grid_marks:
  "text_draws (grid_marks R cen arc scale inner min' max' marks @ ys) = text_draws ys"
  by (induction marks) (simp_all add: Let_def)

lemma text_draws_grid_locs:
  "text_draws (fst (grid_locs R r cen base scale inner min' max' locs marks) @ ys) = text_draws ys"
proof (induction locs arbitrary: marks)
  case Nil
  show ?case by simp
next
  case (Cons loc locs)
  show ?case
    using Cons.IH [of "Marker (Tick r) min' max'"]
    by (cases "base loc") (simp_all add: Let_def case_prod_beta text_draws_grid_marks)
qed

lemma text_draws_draw_grid:
  "text_draws (fst (draw_grid R r cen base scale inner min' max' locs) @ ys) = text_draws ys"
  by (simp add: draw_grid_def text_draws_grid_locs)

lemma text_draws_draw_spine:
  "text_draws (draw_spine R r cen inner outer @ ys) = text_draws ys"
  by (simp add: draw_spine_def Let_def)

lemma text_draws_tick_marks:
  "\<exists>ds. (\<forall>d\<in>set ds. fst d = fst (case TickConfig.Placement (Tick r) of
                                       None \<Rightarrow> DP (Angle r)
                                     | Some placement \<Rightarrow> placement (Angle r)))
        \<and> (\<forall>ys. text_draws (tick_marks R DP r cen scale inner min' max' marks @ ys)
                   = map_option (\<lambda>es. ds @ es) (text_draws ys))"
proof (induction marks)
  case Nil
  have "\<forall>ys. text_draws (tick_marks R DP r cen scale inner min' max' [] @ ys)
                   = map_option (\<lambda>es. [] @ es) (text_draws ys)"
    by (simp add: option.map_ident)
  then show ?case by (intro exI [of _ "[]"]) simp
next
  case (Cons mark marks)
  let ?rot = "fst (case TickConfig.Placement (Tick r) of
                     None \<Rightarrow> DP (Angle r) | Some placement \<Rightarrow> placement (Angle r))"
  from Cons.IH obtain ds where ds: "\<forall>d\<in>set ds. fst d = ?rot"
    and eq: "\<And>ys. text_draws (tick_marks R DP r cen scale inner min' max' marks @ ys)
                   = map_option (\<lambda>es. ds @ es) (text_draws ys)"
    by blast
  show ?case
  proof (cases "Value mark < min' \<or> Value mark > max'
                \<or> IsMinor mark \<or> TextStyle.Color (TickConfig.Label (Tick r)) = None")
    case True
    then have "\<forall>ys. text_draws (tick_marks R DP r cen scale inner min' max' (mark # marks) @ ys)
                   = map_option (\<lambda>es. ds @ es) (text_draws ys)"
      using eq by (auto simp add: Let_def)
    with ds show ?thesis by blast
  next
    case False
    let ?pl = "case TickConfig.Placement (Tick r) of
                 None \<Rightarrow> DP (Angle r) | Some placement \<Rightarrow> placement (Angle r)"
    let ?off = "R (Angle r + Complete / 4) (TickConfig.Length (Tick r))"
    let ?e = "R (Angle r) ((Value mark - min') * scale + inner)"
    let ?d = "(fst ?pl,
               FillText (TickConfig.Label (Tick r))
                 ((Point.X ?e + Point.X ?off * 2) + draw_Point.X cen)
                 ((Point.Y ?e + Point.Y ?off * 2) + draw_Point.Y cen)
                 (fst (snd ?pl)) (snd (snd ?pl)) (Tick.Label mark))"
    have "\<forall>ys. text_draws (tick_marks R DP r cen scale inner min' max' (mark # marks) @ ys)
                   = map_option (\<lambda>es. (?d # ds) @ es) (text_draws ys)"
      using eq False
      by (cases "fst ?pl = 0") (auto simp add: Let_def case_prod_beta option.map_comp comp_def)
    then show ?thesis using ds by (intro exI [of _ "?d # ds"]) simp
  qed
qed

lemma text_draws_draw_ticks:
  "\<exists>ds. (\<forall>d\<in>set ds. fst d = fst (case TickConfig.Placement (Tick r) of
                                       None \<Rightarrow> DP (Angle r)
                                     | Some placement \<Rightarrow> placement (Angle r)))
        \<and> (\<forall>ys. text_draws (draw_ticks R DP r cen scale inner min' max' marks @ ys)
                   = map_option (\<lambda>es. ds @ es) (text_draws ys))"
proof (cases "LineStyle.Color (TickConfig.LineStyle (Tick r)) \<noteq> None
         \<and> Width (TickConfig.LineStyle (Tick r)) \<noteq> 0 \<and> TickConfig.Length (Tick r) \<noteq> 0")
  case True
  let ?marks = "if marks = [] then Marker (Tick r) min' max' else marks"
  from text_draws_tick_marks [where r = r and DP = DP and R = R and cen = cen and scale = scale
      and inner = inner and min' = min' and max' = max' and marks = ?marks]
  obtain ds where ds: "\<forall>d\<in>set ds. fst d = fst (case TickConfig.Placement (Tick r) of
                                       None \<Rightarrow> DP (Angle r)
                                     | Some placement \<Rightarrow> placement (Angle r))"
    and eq: "\<And>ys. text_draws (tick_marks R DP r cen scale inner min' max' ?marks @ ys)
                   = map_option (\<lambda>es. ds @ es) (text_draws ys)"
    by blast
  from True eq have "\<forall>ys. text_draws (draw_ticks R DP r cen scale inner min' max' marks @ ys)
                   = map_option (\<lambda>es. ds @ es) (text_draws ys)"
    by (simp add: draw_ticks_def Let_def)
  with ds show ?thesis by blast
next
  case False
  then have "\<forall>ys. text_draws (draw_ticks R DP r cen scale inner min' max' marks @ ys)
                   = map_option (\<lambda>es. [] @ es) (text_draws ys)"
    by (auto simp add: draw_ticks_def option.map_ident)
  then show ?thesis by (intro exI [of _ "[]"]) simp
qed

lemma text_draws_draw_label:
  "\<exists>ds. (\<forall>d\<in>set ds. fst d = fst (case AxisLabel.Placement (Axis.Label r) of
                                       None \<Rightarrow> DP (Angle r)
                                     | Some placement \<Rightarrow> placement (Angle r)))
        \<and> text_draws (draw_label R DP r cen inner outer) = Some ds"
proof (cases "Text (Axis.Label r) \<noteq> [] \<and> TextStyle.Color (TextStyle (Axis.Label r)) \<noteq> None")
  case True
  let ?pl = "case AxisLabel.Placement (Axis.Label r) of
               None \<Rightarrow> DP (Angle r) | Some placement \<Rightarrow> placement (Angle r)"
  let ?e = "R (Angle r) ((inner + outer) / 2)"
  let ?d = "(fst ?pl,
             FillText (TextStyle (Axis.Label r)) (Point.X ?e + draw_Point.X cen)
               (Point.Y ?e + draw_Point.Y cen) (fst (snd ?pl)) (snd (snd ?pl))
               (Text (Axis.Label r)))"
  from True have "text_draws (draw_label R DP r cen inner outer) = Some [?d]"
    by (cases "fst ?pl = 0") (auto simp add: draw_label_def Let_def case_prod_beta)
  then show ?thesis by (intro exI [of _ "[?d]"]) simp
next
  case False
  then have "text_draws (draw_label R DP r cen inner outer) = Some []"
    by (auto simp add: draw_label_def)
  then show ?thesis by (intro exI [of _ "[]"]) simp
qed

lemma text_draws_drawAt:
  "\<exists>ds. text_draws (fst (drawAt R DP r cen locs base inner outer min' max')) = Some ds"
proof -
  let ?scale = "(outer - inner) / (max' - min')"
  obtain grid res where g: "draw_grid R r cen base ?scale inner min' max' locs = (grid, res)"
    by (cases "draw_grid R r cen base ?scale inner min' max' locs")
  have grid: "text_draws (grid @ ys) = text_draws ys" for ys
    using text_draws_draw_grid [of R r cen base ?scale inner min' max' locs ys] g by simp
  show ?thesis
  proof (cases res)
    case (Inl err)
    with g grid [of "[]"] show ?thesis by (simp add: drawAt_def Let_def)
  next
    case (Inr marks)
    from text_draws_draw_ticks [where r = r and DP = DP and R = R and cen = cen and scale = ?scale
        and inner = inner and min' = min' and max' = max' and marks = marks]
    obtain tds where t: "\<And>ys. text_draws (draw_ticks R DP r cen ?scale inner min' max' marks @ ys)
                   = map_option (\<lambda>es. tds @ es) (text_draws ys)"
      by blast
    from text_draws_draw_label [where r = r and DP = DP and R = R and cen = cen and inner = inner
        and outer = outer]
    obtain lds where l: "text_draws (draw_label R DP r cen inner outer) = Some lds"
      by blast
    from Inr g grid t l show ?thesis
      by (simp add: drawAt_def Let_def text_draws_draw_spine)
  qed
qed

text \<open>
  C8: whatever the outcome of \<^verbatim>\<open>drawAt\<close> (a return or the panic of the arc lookup),
  the calls it made leave every canvas as they found it: the current transform and the
  stack of saved states are those before the call, so each \<^verbatim>\<open>Push\<close> has its
  \<^verbatim>\<open>Pop\<close> (and there are as many of the one as of the other). Every transforming call
  stands in a bracket \<^verbatim>\<open>Push, Translate(x, y), Rotate(rot), Translate(-x, -y), FillText,
  Pop\<close> with a nonzero rotation around one text draw; and each text of the ticks and of
  the label is drawn under the rotation its placement computes, that is, within such a
  bracket when that rotation is not zero.
\<close>

theorem canvas_transforms_scoped:
  "canvas_calls (fst (drawAt R DP r cen locs base inner outer min' max')) ca = Some ca
   \<and> count_list (fst (drawAt R DP r cen locs base inner outer min' max')) Push
       = count_list (fst (drawAt R DP r cen locs base inner outer min' max')) Pop
   \<and> (\<exists>ds. text_draws (fst (drawAt R DP r cen locs base inner outer min' max')) = Some ds)
   \<and> (\<exists>ds. text_draws (draw_ticks R DP r cen scale inner min' max' marks) = Some ds
            \<and> (\<forall>d\<in>set ds. fst d = fst (case TickConfig.Placement (Tick r) of
                                            None \<Rightarrow> DP (Angle r)
                                          | Some placement \<Rightarrow> placement (Angle r))))
   \<and> (\<exists>ds. text_draws (draw_label R DP r cen inner outer) = Some ds
            \<and> (\<forall>d\<in>set ds. fst d = fst (case AxisLabel.Placement (Axis.Label r) of
                                            None \<Rightarrow> DP (Angle r)
                                          | Some placement \<Rightarrow> placement (Angle r))))"
proof (intro conjI)
  show "canvas_calls (fst (drawAt R DP r cen locs base inner outer min' max')) ca = Some ca"
    by (rule canvas_calls_drawAt)
  show "count_list (fst (drawAt R DP r cen locs base inner outer min' max')) Push
       = count_list (fst (drawAt R DP r cen locs base inner outer min' max')) Pop"
    by (rule count_Push_Pop_drawAt)
  show "\<exists>ds. text_draws (fst (drawAt R DP r cen locs base inner outer min' max')) = Some ds"
    by (rule text_draws_drawAt)
  from text_draws_draw_ticks [where r = r and DP = DP and R = R and cen = cen and scale = scale
      and inner = inner and min' = min' and max' = max' and marks = marks]
  obtain ds where ds: "\<forall>d\<in>set ds. fst d = fst (case TickConfig.Placement (Tick r) of
                                            None \<Rightarrow> DP (Angle r)
                                          | Some placement \<Rightarrow> placement (Angle r))"
    and eq: "\<And>ys. text_draws (draw_ticks R DP r cen scale inner min' max' marks @ ys)
                   = map_option (\<lambda>es. ds @ es) (text_draws ys)"
    by blast
  from eq [of "[]"] have "text_draws (draw_ticks R DP r cen scale inner min' max' marks) = Some ds"
    by simp
  with ds show "\<exists>ds. text_draws (draw_ticks R DP r cen scale inner min' max' marks) = Some ds
            \<and> (\<forall>d\<in>set ds. fst d = fst (case TickConfig.Placement (Tick r) of
                                            None \<Rightarrow> DP (Angle r)
                                          | Some placement \<Rightarrow> placement (Angle r)))"
    by blast
  from text_draws_draw_label [where r = r and DP = DP and R = R and cen = cen and inner = inner
      and outer = outer]
  show "\<exists>ds. text_draws (draw_label R DP r cen inner outer) = Some ds
            \<and> (\<forall>d\<in>set ds. fst d = fst (case AxisLabel.Placement (Axis.Label r) of
                                            None \<Rightarrow> DP (Angle r)
                                          | Some placement \<Rightarrow> placement (Angle r)))"
    by blast
qed

text \<open>
  The sample axis: the tick labels are placed without rotation, the axis label with the
  rotation \<open>1\<close>.
\<close>

theorem canvas_transforms_scoped_witness:
  "canvas_calls (fst (drawAt sample_Rectangular sample_placement sample_axis
                        \<lparr>draw_Point.X = 0, Y = 0\<rparr> [1 :: nat] sample_base 1 2 0 1)) ([], [])
     = Some ([], [])
   \<and> count_list (fst (drawAt sample_Rectangular sample_placement sample_axis
                        \<lparr>draw_Point.X = 0, Y = 0\<rparr> [1 :: nat] sample_base 1 2 0 1)) Push = 1
   \<and> count_list (fst (drawAt sample_Rectangular sample_placement sample_axis
                        \<lparr>draw_Point.X = 0, Y = 0\<rparr> [1 :: nat] sample_base 1 2 0 1)) Pop = 1
   \<and> text_draws (fst (drawAt sample_Rectangular sample_placement sample_axis
                        \<lparr>draw_Point.X = 0, Y = 0\<rparr> [1 :: nat] sample_base 1 2 0 1))
     = Some [(0, FillText sample_text 1 2 0 (1 / 2) ''0''),
             (1, FillText sample_text (3 / 2) 0 (1 / 2) 0 ''score'')]
   \<and> text_draws (draw_ticks sample_Rectangular sample_placement sample_axis
                    \<lparr>draw_Point.X = 0, Y = 0\<rparr> 1 1 0 1 [])
     = Some [(0, FillText sample_text 1 2 0 (1 / 2) ''0'')]
   \<and> text_draws (draw_label sample_Rectangular sample_placement sample_axis
                    \<lparr>draw_Point.X = 0, Y = 0\<rparr> 1 2)
     = Some [(1, FillText sample_text (3 / 2) 0 (1 / 2) 0 ''score'')]"
  using canvas_transforms_scoped [where R = sample_Rectangular and DP = sample_placement
      and r = sample_axis and cen = "\<lparr>draw_Point.X = 0, Y = 0\<rparr>" and locs = "[1 :: nat]"
      and base = sample_base and inner = 1 and outer = 2 and min' = 0 and max' = 1
      and ca = "([], [])" and scale = 1 and marks = "[]"]
  by (simp add: sample_defs render_defs)

subsection \<open>The radii passed to the projection\<close>

lemma between_bounds:
  fixes a b f :: real
  assumes "0 \<le> f" and "f \<le> 1" and "lo \<le> a" and "lo \<le> b"
  shows "lo \<le> a + (b - a) * f"
proof -
  have "a + (b - a) * f = (1 - f) * a + f * b" by (simp add: algebra_simps)
  moreover have "(1 - f) * lo \<le> (1 - f) * a" using assms by (intro mult_left_mono) simp_all
  moreover have "f * lo \<le> f * b" using assms by (intro mult_left_mono) simp_all
  moreover have "(1 - f) * lo + f * lo = lo" by (simp add: algebra_simps)
  ultimately show ?thesis by linarith
qed

lemma between_bounds_upper:
  fixes a b f :: real
  assumes "0 \<le> f" and "f \<le> 1" and "a \<le> hi" and "b \<le> hi"
  shows "a + (b - a) * f \<le> hi"
proof -
  have "a + (b - a) * f = (1 - f) * a + f * b" by (simp add: algebra_simps)
  moreover have "(1 - f) * a \<le> (1 - f) * hi" using assms by (intro mult_left_mono) simp_all
  moreover have "f * b \<le> f * hi" using assms by (intro mult_left_mono) simp_all
  moreover have "(1 - f) * hi + f * hi = hi" by (simp add: algebra_simps)
  ultimately show ?thesis by linarith
qed

lemma LengthDist_Perturb_nonneg:
  assumes "LengthDist_nonneg p" and "0 \<le> f" and "f < 1"
  shows "0 \<le> LengthDist_Perturb p f"
proof -
  let ?lo = "case LengthDist.Min p of None \<Rightarrow> 1 | Some m \<Rightarrow> m"
  let ?hi = "case LengthDist.Max p of None \<Rightarrow> 1 | Some m \<Rightarrow> m"
  from assms(1) have "0 \<le> ?lo" and "0 \<le> ?hi" and l: "0 \<le> LengthDist.Length p"
    by (auto simp: LengthDist_nonneg_def split: option.splits)
  with assms(2,3) have "0 \<le> ?lo + (?hi - ?lo) * f"
    by (intro between_bounds) simp_all
  with l have "0 \<le> LengthDist.Length p * (?lo + (?hi - ?lo) * f)" by simp
  with l show ?thesis by (simp add: LengthDist_Perturb_def Let_def)
qed

lemma FactorDist_Perturb_unit:
  assumes "FactorDist_unit p" and "0 \<le> f" and "f < 1"
  shows "0 \<le> FactorDist_Perturb p f \<and> FactorDist_Perturb p f \<le> 1"
proof -
  let ?lo = "case FactorDist.Min p of None \<Rightarrow> 1 | Some m \<Rightarrow> m"
  let ?hi = "case FactorDist.Max p of None \<Rightarrow> 1 | Some m \<Rightarrow> m"
  from assms(1) have b: "0 \<le> ?lo" "0 \<le> ?hi" "?lo \<le> 1" "?hi \<le> 1"
    and k: "0 \<le> Factor p" "Factor p \<le> 1"
    by (auto simp: FactorDist_unit_def split: option.splits)
  from b assms(2,3) have m0: "0 \<le> ?lo + (?hi - ?lo) * f"
    by (intro between_bounds) simp_all
  from b assms(2,3) have m1: "?lo + (?hi - ?lo) * f \<le> 1"
    by (intro between_bounds_upper) simp_all
  from k m0 have "0 \<le> Factor p * (?lo + (?hi - ?lo) * f)" by simp
  moreover from k m0 m1 have "Factor p * (?lo + (?hi - ?lo) * f) \<le> 1"
    by (simp add: mult_le_one)
  ultimately show ?thesis using k by (simp add: FactorDist_Perturb_def Let_def)
qed

lemma working_radius_nonneg:
  assumes "LengthDist_nonneg (Radius b)"
    and "case Purity b of None \<Rightarrow> True | Some p \<Rightarrow> FactorDist_unit p"
    and "0 \<le> shd rs" and "shd rs < 1"
  shows "LengthDist_nonneg (fst (working_radius b p0 p1 rs))"
proof (cases "Purity b")
  case None
  with assms(1) show ?thesis by (simp add: working_radius_def)
next
  case (Some p)
  let ?L = "LengthDist.Length (Radius b)"
  let ?pf = "FactorDist_Perturb p (shd rs)"
  let ?br = "Hypot ((Point.X p0 + Point.X p1) / 2) ((Point.Y p0 + Point.Y p1) / 2)"
  from Some assms(2-4) have pf: "0 \<le> ?pf" "?pf \<le> 1"
    using FactorDist_Perturb_unit [of p "shd rs"] by simp_all
  have br: "0 \<le> ?br" by (simp add: Hypot_def)
  from assms(1) have L: "0 \<le> ?L" by (simp add: LengthDist_nonneg_def)
  have "?L + (?pf - 1) * (?L - ?br) = ?br + (?L - ?br) * ?pf" by (simp add: algebra_simps)
  moreover have "0 \<le> ?br + (?L - ?br) * ?pf" using pf br L by (intro between_bounds) simp_all
  ultimately have "0 \<le> ?L + (?pf - 1) * (?L - ?br)" by simp
  with Some assms(1) show ?thesis
    by (simp add: working_radius_def rand_Float64_def LengthDist_nonneg_def Let_def)
qed

lemma samples_in_range:
  assumes "\<forall>x\<in>sset rs. 0 \<le> x \<and> x < (1::real)"
  shows "0 \<le> shd rs \<and> shd rs < 1" and "\<forall>x\<in>sset (stl rs). 0 \<le> x \<and> x < 1"
  using assms by (auto intro: shd_sset stl_sset)

lemma working_radius_samples:
  assumes "\<forall>x\<in>sset rs. 0 \<le> x \<and> x < (1::real)"
  shows "\<forall>x\<in>sset (snd (working_radius b p0 p1 rs)). 0 \<le> x \<and> x < 1"
  using assms samples_in_range(2) [OF assms]
  by (simp add: working_radius_def rand_Float64_def Let_def split: option.splits)

lemma ControlPoints_radii_nonneg:
  assumes rad: "0 \<le> fst rad" "0 \<le> snd rad"
    and radius: "LengthDist_nonneg (Radius b)"
    and crest: "case Crest b of None \<Rightarrow> True | Some c \<Rightarrow> FactorDist_unit c"
    and purity: "case Purity b of None \<Rightarrow> True | Some p \<Rightarrow> FactorDist_unit p"
    and samples: "\<forall>x\<in>sset rs. 0 \<le> x \<and> x < 1"
  shows "\<forall>x\<in>set (radii (fst (snd (ControlPoints R b a rad rs)))). 0 \<le> x"
proof -
  let ?p0 = "R (fst a) (fst rad)" and ?p1 = "R (snd a) (snd rad)"
  obtain radius rs1 where w: "working_radius b ?p0 ?p1 rs = (radius, rs1)"
    by (cases "working_radius b ?p0 ?p1 rs")
  from working_radius_nonneg [OF radius purity, of rs ?p0 ?p1] samples_in_range(1) [OF samples] w
  have nn: "LengthDist_nonneg radius" by simp
  then have L: "0 \<le> LengthDist.Length radius" by (simp add: LengthDist_nonneg_def)
  from working_radius_samples [OF samples, of b ?p0 ?p1] w
  have s1: "\<forall>x\<in>sset rs1. 0 \<le> x \<and> x < 1" by simp
  from samples_in_range [OF s1] have f1: "0 \<le> shd rs1" "shd rs1 < 1"
    and s2: "\<forall>x\<in>sset (stl rs1). 0 \<le> x \<and> x < 1" by simp_all
  from samples_in_range(1) [OF s2] have f2: "0 \<le> shd (stl rs1)" "shd (stl rs1) < 1" by simp_all
  have mid: "0 \<le> LengthDist_Perturb radius (shd rs1)"
    using LengthDist_Perturb_nonneg [OF nn f1] .
  show ?thesis
  proof (cases "Crest b")
    case None
    with w rad mid show ?thesis
      by (simp add: ControlPoints_def rand_Float64_def Let_def)
  next
    case (Some c)
    with crest have "FactorDist_unit c" by simp
    from FactorDist_Perturb_unit [OF this f2]
    have c: "0 \<le> FactorDist_Perturb c (shd (stl rs1))" "FactorDist_Perturb c (shd (stl rs1)) \<le> 1"
      by simp_all
    have shoulder: "0 \<le> r - (r - LengthDist.Length radius) * FactorDist_Perturb c (shd (stl rs1))"
      if "0 \<le> r" for r
    proof -
      have "r - (r - LengthDist.Length radius) * FactorDist_Perturb c (shd (stl rs1))
            = r + (LengthDist.Length radius - r) * FactorDist_Perturb c (shd (stl rs1))"
        by (simp add: algebra_simps)
      moreover have "0 \<le> r + (LengthDist.Length radius - r) * FactorDist_Perturb c (shd (stl rs1))"
        using c that L by (intro between_bounds) simp_all
      ultimately show ?thesis by simp
    qed
    from Some w rad mid shoulder [OF rad(1)] shoulder [OF rad(2)] show ?thesis
      by (simp add: ControlPoints_def rand_Float64_def Let_def)
  qed
qed

lemma grid_marks_radii_nonneg:
  assumes "0 \<le> scale" and "0 \<le> inner"
  shows "\<forall>x\<in>set (radii (grid_marks R cen arc scale inner min' max' marks)). 0 \<le> x"
  using assms by (induction marks) (simp_all add: Let_def)

lemma grid_locs_radii_nonneg:
  assumes "0 \<le> scale" and "0 \<le> inner"
  shows "\<forall>x\<in>set (radii (fst (grid_locs R r cen base scale inner min' max' locs marks))). 0 \<le> x"
proof (induction locs arbitrary: marks)
  case Nil
  show ?case by simp
next
  case (Cons loc locs)
  show ?case
    using Cons.IH [of "Marker (Tick r) min' max'"] grid_marks_radii_nonneg [OF assms]
    by (cases "base loc") (auto simp add: Let_def case_prod_beta radii_append)
qed

lemma tick_marks_radii_nonneg:
  assumes "0 \<le> scale" and "0 \<le> inner" and "0 \<le> TickConfig.Length (Tick r)"
  shows "\<forall>x\<in>set (radii (tick_marks R DP r cen scale inner min' max' marks)). 0 \<le> x"
  using assms by (induction marks) (simp_all add: Let_def case_prod_beta radii_append)

lemma no_marks_in_empty_range:
  assumes "max' < min'"
  shows "grid_marks R cen arc scale inner min' max' marks = []"
    and "tick_marks R DP r cen scale inner min' max' marks = []"
  using assms by (induction marks) (auto simp add: Let_def)

lemma grid_locs_empty_range:
  assumes "max' < min'"
  shows "radii (fst (grid_locs R r cen base scale inner min' max' locs marks)) = []"
proof (induction locs arbitrary: marks)
  case Nil
  show ?case by simp
next
  case (Cons loc locs)
  show ?case
    using Cons.IH [of "Marker (Tick r) min' max'"] no_marks_in_empty_range(1) [OF assms]
    by (cases "base loc") (simp_all add: Let_def case_prod_beta radii_append)
qed

lemma drawAt_radii_nonneg:
  assumes "0 \<le> inner" and "inner \<le> outer" and "min' \<noteq> max'"
    and "0 \<le> TickConfig.Length (Tick r)"
  shows "\<forall>x\<in>set (radii (fst (drawAt R DP r cen locs base inner outer min' max'))). 0 \<le> x"
proof -
  let ?scale = "(outer - inner) / (max' - min')"
  have grid: "\<forall>x\<in>set (radii (fst (draw_grid R r cen base ?scale inner min' max' locs))). 0 \<le> x"
  proof (cases "min' < max'")
    case True
    with assms have "0 \<le> ?scale" by simp
    from grid_locs_radii_nonneg [OF this assms(1), where R = R and r = r and cen = cen
        and base = base and min' = min' and max' = max' and locs = locs and marks = "[]"]
    show ?thesis by (simp add: draw_grid_def)
  next
    case False
    with assms(3) have "max' < min'" by simp
    from grid_locs_empty_range [OF this, where R = R and r = r and cen = cen and base = base
        and scale = ?scale and inner = inner and locs = locs and marks = "[]"]
    show ?thesis by (simp add: draw_grid_def)
  qed
  have spine: "\<forall>x\<in>set (radii (draw_spine R r cen inner outer)). 0 \<le> x"
    using assms(1,2) by (simp add: draw_spine_def Let_def)
  have ticks: "\<forall>x\<in>set (radii (draw_ticks R DP r cen ?scale inner min' max' marks)). 0 \<le> x"
    for marks
  proof (cases "min' < max'")
    case True
    with assms have "0 \<le> ?scale" by simp
    from tick_marks_radii_nonneg [OF this assms(1,4), where R = R and DP = DP and cen = cen
        and min' = min' and max' = max'
        and marks = "if marks = [] then Marker (Tick r) min' max' else marks"]
    show ?thesis by (simp add: draw_ticks_def Let_def)
  next
    case False
    with assms(3) have "max' < min'" by simp
    from no_marks_in_empty_range(2) [OF this, where R = R and DP = DP and r = r and cen = cen
        and scale = ?scale and inner = inner
        and marks = "if marks = [] then Marker (Tick r) min' max' else marks"]
    show ?thesis by (simp add: draw_ticks_def Let_def)
  qed
  have label: "\<forall>x\<in>set (radii (draw_label R DP r cen inner outer)). 0 \<le> x"
    using assms(1,2) by (simp add: draw_label_def Let_def case_prod_beta)
  obtain tr res where g: "draw_grid R r cen base ?scale inner min' max' locs = (tr, res)"
    by (cases "draw_grid R r cen base ?scale inner min' max' locs")
  with grid have tr: "\<forall>x\<in>set (radii tr). 0 \<le> x" by simp
  show ?thesis
  proof (cases res)
    case (Inl err)
    with g tr show ?thesis by (simp add: drawAt_def Let_def)
  next
    case (Inr marks)
    with g tr spine ticks [of marks] label show ?thesis
      by (auto simp add: drawAt_def Let_def radii_append)
  qed
qed

text \<open>
  C9, as the code has it: the radii passed to the projection are not negative when the
  inputs are in range. For a render: \<open>0 \<le> inner \<le> outer\<close>, \<^verbatim>\<open>min\<close> different from
  \<^verbatim>\<open>max\<close> and a tick length that is not negative. For the control points: end radii
  that are not negative, a \<^verbatim>\<open>Radius\<close> whose length and bounds are not negative,
  \<^verbatim>\<open>Crest\<close> and \<^verbatim>\<open>Purity\<close> (when set) with factor and bounds in \<open>[0, 1]\<close>, and
  random samples in \<open>[0, 1)\<close>.
\<close>

theorem radii_nonneg_for_inputs_in_range:
  "(0 \<le> inner \<and> inner \<le> outer \<and> min' \<noteq> max' \<and> 0 \<le> TickConfig.Length (Tick r)
      \<longrightarrow> (\<forall>x\<in>set (radii (fst (drawAt R DP r cen locs base inner outer min' max'))). 0 \<le> x))
   \<and> (0 \<le> fst rad \<and> 0 \<le> snd rad \<and> LengthDist_nonneg (Radius b)
        \<and> (case Crest b of None \<Rightarrow> True | Some c \<Rightarrow> FactorDist_unit c)
        \<and> (case Purity b of None \<Rightarrow> True | Some p \<Rightarrow> FactorDist_unit p)
        \<and> (\<forall>x\<in>sset rs. 0 \<le> x \<and> x < 1)
      \<longrightarrow> (\<forall>x\<in>set (radii (fst (snd (ControlPoints R b a rad rs)))). 0 \<le> x))"
  using drawAt_radii_nonneg [of inner outer min' max' r R DP cen locs base]
    ControlPoints_radii_nonneg [of rad b rs R a]
  by blast

theorem radii_nonneg_for_inputs_in_range_witness:
  "(0 :: real) \<le> 1 \<and> (1 :: real) \<le> 2 \<and> (0 :: real) \<noteq> 1
   \<and> 0 \<le> TickConfig.Length (Tick sample_axis)
   \<and> list_all (\<lambda>x. 0 \<le> x)
        (radii (fst (drawAt sample_Rectangular sample_placement sample_axis
                       \<lparr>draw_Point.X = 0, Y = 0\<rparr> [1 :: nat] sample_base 1 2 0 1)))
   \<and> (0 :: real) \<le> fst (1, 1) \<and> (0 :: real) \<le> snd (1, 1)
   \<and> LengthDist_nonneg (Radius sample_bezier)
   \<and> list_all (\<lambda>x. 0 \<le> x \<and> x < 1) (stake 3 (sconst (1 / 2 :: real)))
   \<and> list_all (\<lambda>x. 0 \<le> x)
        (radii (fst (snd (ControlPoints sample_Rectangular sample_bezier (0, 0) (1, 1)
                            (sconst (1 / 2))))))
   \<and> radii (fst (snd (ControlPoints sample_Rectangular sample_bezier (0, 0) (1, 1)
                            (sconst (1 / 2)))))
     = [1, 1, 3 / 4, 1, 1]"
proof -
  have render: "(0 :: real) \<le> 1 \<and> (1 :: real) \<le> 2 \<and> (0 :: real) \<noteq> 1
      \<and> 0 \<le> TickConfig.Length (Tick sample_axis)"
    by (simp add: sample_defs)
  have points: "(0 :: real) \<le> fst (1, 1) \<and> (0 :: real) \<le> snd (1, 1)
      \<and> LengthDist_nonneg (Radius sample_bezier)
      \<and> (case Crest sample_bezier of None \<Rightarrow> True | Some c \<Rightarrow> FactorDist_unit c)
      \<and> (case Purity sample_bezier of None \<Rightarrow> True | Some p \<Rightarrow> FactorDist_unit p)
      \<and> (\<forall>x\<in>sset (sconst (1 / 2 :: real)). 0 \<le> x \<and> x < 1)"
    by (simp add: sample_bezier_def LengthDist_nonneg_def FactorDist_unit_def)
  note inst = radii_nonneg_for_inputs_in_range [where inner = 1 and outer = 2 and min' = 0
      and max' = 1 and r = sample_axis and R = sample_Rectangular and DP = sample_placement
      and cen = "\<lparr>draw_Point.X = 0, Y = 0\<rparr>" and locs = "[1 :: nat]" and base = sample_base
      and rad = "(1, 1)" and b = sample_bezier and rs = "sconst (1 / 2)" and a = "(0, 0)"]
  from inst render have "\<forall>x\<in>set (radii (fst (drawAt sample_Rectangular sample_placement sample_axis
                       \<lparr>draw_Point.X = 0, Y = 0\<rparr> [1 :: nat] sample_base 1 2 0 1))). 0 \<le> x"
    by blast
  moreover from inst points
  have "\<forall>x\<in>set (radii (fst (snd (ControlPoints sample_Rectangular sample_bezier (0, 0) (1, 1)
                            (sconst (1 / 2)))))). 0 \<le> x"
    by blast
  moreover have "radii (fst (snd (ControlPoints sample_Rectangular sample_bezier (0, 0) (1, 1)
                            (sconst (1 / 2))))) = [1, 1, 3 / 4, 1, 1]"
    by (simp add: sample_defs sample_bezier_def ControlPoints_def working_radius_def bisect_def
          Hypot_def rand_Float64_def Let_def LengthDist_Perturb_def FactorDist_Perturb_def)
  moreover have "list_all (\<lambda>x. 0 \<le> x \<and> x < 1) (stake 3 (sconst (1 / 2 :: real)))"
    by (simp add: numeral_3_eq_3)
  ultimately show ?thesis using render points by (simp add: list_all_iff)
qed

text \<open>
  Without those ranges a negative radius reaches the projection: an end radius \<open>-1\<close> is
  projected as it is, and so is a tick length \<open>-1\<close>.
\<close>

theorem negative_radius_projected:
  "- 1 \<in> set (radii (fst (snd (ControlPoints sample_Rectangular sample_bezier (0, 1) (- 1, 1)
                                   (sconst (1 / 2))))))
   \<and> - 1 \<in> set (radii (fst (drawAt sample_Rectangular sample_placement
                               (sample_axis\<lparr>Tick := (Tick sample_axis)\<lparr>Length := - 1\<rparr>\<rparr>)
                               \<lparr>draw_Point.X = 0, Y = 0\<rparr> [0 :: nat] sample_base 1 2 0 1)))"
  by (simp add: sample_defs sample_bezier_def ControlPoints_def working_radius_def
        rand_Float64_def drawAt_def draw_grid_def draw_spine_def draw_ticks_def draw_label_def
        Let_def IsMinor_def LengthDist_Perturb_def FactorDist_Perturb_def)

end
